theory Spec2Isabelle
  imports Main
begin

section \<open>The exam screen component (examStartScreen.js)\<close>

text \<open>
  The component is a class whose fields are mutated by event handlers. It is embedded
  as a record of its fields, each handler being a function from the component to the
  updated component. What a handler sends to the outside (Apex calls, toast events,
  alerts, console output) is appended to the field \<open>effects\<close>, in program order.

  A JavaScript number is a double. Every number the component holds is integral or an
  infinity, and is modelled by an \<open>int\<close>, with \<open>js_infinity\<close> and its negation standing
  for the two infinities; negative zero is not told from zero, the component only ever
  subtracting one from it. The results of \<open>parseInt\<close> and of the subtraction in
  \<open>handleBadgeClick\<close>, which can be of any magnitude, are rounded as the double format
  rounds them (\<open>to_double\<close>). All other arithmetic acts on the clock and on positions
  inside the question array, which has fewer than \<open>2 ^ 32\<close> elements, and is exact there.
  JavaScript strings are modelled as \<open>string\<close>, a \<open>char\<close> standing for a code unit below
  256.
\<close>

subsection \<open>Data\<close>

record option_item =
  label :: string
  opt_value :: string
  checked :: bool
  cssClass :: string

record question =
  questionId :: string
  questionText :: string
  optionList :: "option_item list"
  badgeClass :: string
  questionNumber :: int
  reviewed :: bool

text \<open>One element of the array that \<open>getQuestionsByExamId\<close> resolves to.\<close>

record question_dto =
  dto_questionId :: string
  dto_questionText :: string
  dto_options :: "string list"

datatype effect =
    GetQuestionsByExamId "string option"
  | SaveOrUpdateResponse "string option" string string "string option"
  | EvaluateExamResult "string option" "string option"
  | ShowToastEvent string string string
  | Alert string
  | Console_log
  | Console_warn "int list"
  | Console_error

text \<open>
  \<open>timerInterval\<close> is \<open>True\<close> while the interval registered by \<open>startTimer\<close> is
  scheduled; \<open>clearInterval\<close> sets it to \<open>False\<close>.
\<close>

record component =
  AttendeId :: "string option"
  examId :: "string option"
  questions :: "question list"
  currentQuestionIndex :: int
  unansweredQuestionNumbers :: "int list"
  showResult :: bool
  result :: string
  correct :: int
  wrong :: int
  questionList :: bool
  minutes :: int
  seconds :: int
  timerInterval :: bool
  effects :: "effect list"

text \<open>Reading a property of \<open>undefined\<close> throws.\<close>

datatype js_error = TypeError

text \<open>The field initialisers of the class, with the two public properties set by the host.\<close>

definition ExamStartScreen :: "string option \<Rightarrow> string option \<Rightarrow> component" where
  "ExamStartScreen a e =
     \<lparr> AttendeId = a, examId = e, questions = [], currentQuestionIndex = 0,
       unansweredQuestionNumbers = [], showResult = False, result = [], correct = 0,
       wrong = 0, questionList = False, minutes = 2, seconds = 0, timerInterval = False,
       effects = [] \<rparr>"

definition emit :: "effect \<Rightarrow> component \<Rightarrow> component" where
  "emit x s = s\<lparr>effects := effects s @ [x]\<rparr>"

subsection \<open>Numbers\<close>

text \<open>
  The distance between neighbouring doubles at the magnitude \<open>a\<close>: the least power of two
  \<open>u\<close> with \<open>a < 2 ^ 53 * u\<close>, the significand of a double having 53 bits.
\<close>

function spacing :: "int \<Rightarrow> int" where
  "spacing a = (if a < 2 ^ 53 then 1 else 2 * spacing (a div 2))"
  by pat_completeness auto
termination
proof (relation "measure nat")
  show "wf (measure nat)" by simp
next
  fix a :: int
  assume "\<not> a < 2 ^ 53"
  then have "0 < a" by simp
  then show "(a div 2, a) \<in> measure nat" by simp
qed

declare spacing.simps [simp del]

text \<open>The multiple of \<open>u\<close> nearest to \<open>a\<close>; of two equally near, the even multiple.\<close>

definition round_half_even :: "int \<Rightarrow> int \<Rightarrow> int" where
  "round_half_even a u =
     (let q = a div u; r = a mod u
      in if 2 * r < u then q * u
         else if u < 2 * r then (q + 1) * u
         else if even q then q * u else (q + 1) * u)"

text \<open>
  The greatest finite double is \<open>2 ^ 1024 - 2 ^ 971\<close>; what rounds to \<open>2 ^ 1024\<close> or
  beyond is \<open>Infinity\<close>, and \<open>2 ^ 1024\<close> stands for it.
\<close>

definition js_infinity :: int where
  "js_infinity = 2 ^ 1024"

text \<open>
  The double of an integer: round to nearest, ties to even, overflow to the infinity of
  the same sign. With \<open>js_infinity\<close> for \<open>Infinity\<close> this also gives
  \<open>Infinity - 1 = Infinity\<close>.
\<close>

definition to_double :: "int \<Rightarrow> int" where
  "to_double m =
     (let a = \<bar>m\<bar>;
          v = min (round_half_even a (spacing a)) js_infinity
      in if m < 0 then - v else v)"

subsection \<open>Strings\<close>

text \<open>White space as \<open>trim\<close> and \<open>parseInt\<close> skip it, among the code units below 256.\<close>

definition js_whitespace :: "char \<Rightarrow> bool" where
  "js_whitespace c = ((of_char c :: nat) \<in> {9, 10, 11, 12, 13, 32, 160})"

definition js_trim :: "string \<Rightarrow> string" where
  "js_trim str = rev (dropWhile js_whitespace (rev (dropWhile js_whitespace str)))"

definition is_digit :: "char \<Rightarrow> bool" where
  "is_digit c = (48 \<le> (of_char c :: nat) \<and> (of_char c :: nat) \<le> 57)"

definition digits_value :: "string \<Rightarrow> int" where
  "digits_value ds = foldl (\<lambda>acc c. 10 * acc + (int (of_char c) - 48)) 0 ds"

text \<open>
  \<open>parseInt(str, 10)\<close>: skip leading white space, take an optional sign, then the longest
  run of decimal digits; with no digit the result is \<open>NaN\<close>, here \<open>None\<close>. What follows
  the digits is ignored. The result is the double of the integer that the digits denote.
  (The language lets an implementation replace the digits after the twentieth significant
  one by zeros before rounding; the model rounds the exact integer.)
\<close>

definition parseInt10 :: "string \<Rightarrow> int option" where
  "parseInt10 inputString =
     (let S = dropWhile js_whitespace inputString;
          sign = (case S of c # _ \<Rightarrow> if c = CHR ''-'' then - 1 else 1 | [] \<Rightarrow> (1::int));
          S' = (case S of c # rest \<Rightarrow> if c = CHR ''-'' \<or> c = CHR ''+'' then rest else S
                | [] \<Rightarrow> S);
          Z = takeWhile is_digit S'
      in if Z = [] then None else Some (to_double (sign * digits_value Z)))"

text \<open>\<open>selected.label.split(':')[0].trim()\<close>\<close>

definition labelPrefix :: "string \<Rightarrow> string" where
  "labelPrefix l = js_trim (takeWhile (\<lambda>c. c \<noteq> CHR '':'') l)"

subsection \<open>Loading\<close>

text \<open>
  \<open>labels[i]\<close> inside the template literal: the array has four entries, and reading
  beyond them gives \<open>undefined\<close>, which the template prints as such.
\<close>

definition labels :: "string list" where
  "labels = [''A'', ''B'', ''C'', ''D'']"

definition labels_at :: "nat \<Rightarrow> string" where
  "labels_at i = (if i < length labels then labels ! i else ''undefined'')"

definition make_option :: "nat \<times> string \<Rightarrow> option_item" where
  "make_option p =
     (case p of (i, opt) \<Rightarrow>
        \<lparr> label = labels_at i @ '': '' @ opt, opt_value = opt, checked = False,
          cssClass = ''option'' \<rparr>)"

definition make_question :: "nat \<times> question_dto \<Rightarrow> question" where
  "make_question p =
     (case p of (index, q) \<Rightarrow>
        \<lparr> questionId = dto_questionId q, questionText = dto_questionText q,
          optionList = map make_option (enumerate 0 (dto_options q)),
          badgeClass = ''badge unanswered'', questionNumber = int index + 1,
          reviewed = False \<rparr>)"

text \<open>The two continuations of the promise of \<open>getQuestionsByExamId\<close>.\<close>

definition getQuestions_then :: "question_dto list \<Rightarrow> component \<Rightarrow> component" where
  "getQuestions_then res s =
     emit Console_log
       (s\<lparr>questionList := True, questions := map make_question (enumerate 0 res)\<rparr>)"

definition getQuestions_catch :: "component \<Rightarrow> component" where
  "getQuestions_catch s = emit Console_error s"

definition loadQuestions :: "component \<Rightarrow> component" where
  "loadQuestions s = emit (GetQuestionsByExamId (examId s)) s"

definition startTimer :: "component \<Rightarrow> component" where
  "startTimer s = s\<lparr>timerInterval := True\<rparr>"

text \<open>\<open>if (this.examId)\<close>: \<open>undefined\<close> and the empty string are falsy.\<close>

definition connectedCallback :: "component \<Rightarrow> component" where
  "connectedCallback s =
     (case examId s of
        None \<Rightarrow> s
      | Some e \<Rightarrow> if e = [] then s else startTimer (loadQuestions s))"

subsection \<open>Answering\<close>

text \<open>\<open>this.questions[this.currentQuestionIndex]\<close>, \<open>None\<close> for \<open>undefined\<close>.\<close>

definition currentQuestion :: "component \<Rightarrow> question option" where
  "currentQuestion s =
     (let i = currentQuestionIndex s
      in if 0 \<le> i \<and> i < int (length (questions s)) then Some (questions s ! nat i)
         else None)"

definition some_checked :: "question \<Rightarrow> bool" where
  "some_checked q = list_ex checked (optionList q)"

definition updateUnansweredTracking :: "component \<Rightarrow> js_error + component" where
  "updateUnansweredTracking s =
     (case currentQuestion s of
        None \<Rightarrow> Inl TypeError
      | Some question \<Rightarrow>
          (let questionNumber = currentQuestionIndex s + 1
           in if \<not> some_checked question then
                (if questionNumber \<notin> set (unansweredQuestionNumbers s)
                 then Inr (s\<lparr>unansweredQuestionNumbers :=
                               unansweredQuestionNumbers s @ [questionNumber]\<rparr>)
                 else Inr s)
              else Inr (s\<lparr>unansweredQuestionNumbers :=
                            filter (\<lambda>num. num \<noteq> questionNumber)
                              (unansweredQuestionNumbers s)\<rparr>)))"

definition select_opt :: "string \<Rightarrow> option_item \<Rightarrow> option_item" where
  "select_opt selectedOption opt =
     opt\<lparr>checked := (opt_value opt = selectedOption),
         cssClass := (if opt_value opt = selectedOption then ''option selected''
                      else ''option'')\<rparr>"

definition update_badge :: "question \<Rightarrow> question" where
  "update_badge q =
     (if some_checked q then
        (if reviewed q then q\<lparr>reviewed := False\<rparr> else q)\<lparr>badgeClass := ''badge answered''\<rparr>
      else q\<lparr>badgeClass := (if reviewed q then ''badge review'' else ''badge unanswered'')\<rparr>)"

definition save_response :: "question \<Rightarrow> component \<Rightarrow> component" where
  "save_response q s =
     (case find checked (optionList q) of
        None \<Rightarrow> s
      | Some selected \<Rightarrow>
          emit (SaveOrUpdateResponse (AttendeId s) (questionId q)
                  (labelPrefix (label selected)) (examId s)) s)"

definition handleOptionChange :: "string \<Rightarrow> component \<Rightarrow> js_error + component" where
  "handleOptionChange selectedOption s =
     (case currentQuestion s of
        None \<Rightarrow> Inl TypeError
      | Some q \<Rightarrow>
          (let question =
                 update_badge (q\<lparr>optionList := map (select_opt selectedOption) (optionList q)\<rparr>);
               s1 = s\<lparr>questions := (questions s)[nat (currentQuestionIndex s) := question]\<rparr>
           in case updateUnansweredTracking s1 of
                Inl e \<Rightarrow> Inl e
              | Inr s2 \<Rightarrow> Inr (save_response question s2)))"

definition handleReview :: "component \<Rightarrow> js_error + component" where
  "handleReview s =
     (case currentQuestion s of
        None \<Rightarrow> Inl TypeError
      | Some q \<Rightarrow>
          Inr (s\<lparr>questions := (questions s)[nat (currentQuestionIndex s) :=
                    q\<lparr>reviewed := True, badgeClass := ''badge review''\<rparr>]\<rparr>))"

subsection \<open>Navigation\<close>

definition handleNext :: "component \<Rightarrow> js_error + component" where
  "handleNext s =
     (case updateUnansweredTracking s of
        Inl e \<Rightarrow> Inl e
      | Inr s1 \<Rightarrow>
          Inr (if currentQuestionIndex s1 < int (length (questions s1)) - 1
               then s1\<lparr>currentQuestionIndex := currentQuestionIndex s1 + 1\<rparr> else s1))"

definition handlePrevious :: "component \<Rightarrow> js_error + component" where
  "handlePrevious s =
     (case updateUnansweredTracking s of
        Inl e \<Rightarrow> Inl e
      | Inr s1 \<Rightarrow>
          Inr (if currentQuestionIndex s1 > 0
               then s1\<lparr>currentQuestionIndex := currentQuestionIndex s1 - 1\<rparr> else s1))"

definition handleBadgeClick :: "string \<Rightarrow> component \<Rightarrow> component" where
  "handleBadgeClick dataset_index s =
     (case parseInt10 dataset_index of
        None \<Rightarrow> s
      | Some index \<Rightarrow> s\<lparr>currentQuestionIndex := to_double (index - 1)\<rparr>)"

subsection \<open>Submission and the timer\<close>

definition showNotification :: "component \<Rightarrow> component" where
  "showNotification s =
     emit (ShowToastEvent ''Success''
             ''Quiz submitted successfully! View your score on the results screen''
             ''success'') s"

text \<open>
  The \<open>forEach\<close> of \<open>handleSubmit\<close>, from position \<open>index\<close> on: the pair carries
  \<open>unansweredQuestionNumbers\<close> and the local \<open>selectedAnswersWithIds\<close>.
\<close>

fun submit_scan ::
  "nat \<Rightarrow> question list \<Rightarrow> int list \<times> (string \<times> string) list
     \<Rightarrow> int list \<times> (string \<times> string) list" where
  "submit_scan index [] acc = acc"
| "submit_scan index (question # rest) (unanswered, selectedAnswersWithIds) =
     (case find checked (optionList question) of
        None \<Rightarrow>
          submit_scan (Suc index) rest (unanswered @ [int index + 1], selectedAnswersWithIds)
      | Some selected \<Rightarrow>
          submit_scan (Suc index) rest
            (unanswered,
             selectedAnswersWithIds @ [(questionId question, labelPrefix (label selected))]))"

definition handleSubmit :: "component \<Rightarrow> component" where
  "handleSubmit s =
     (let s1 = s\<lparr>timerInterval := False, unansweredQuestionNumbers := []\<rparr>;
          s2 = s1\<lparr>unansweredQuestionNumbers := fst (submit_scan 0 (questions s1) ([], []))\<rparr>
      in if length (unansweredQuestionNumbers s2) > 0
         then emit (Console_warn (unansweredQuestionNumbers s2)) s2
         else emit (EvaluateExamResult (AttendeId s2) (examId s2))
                (showNotification (s2\<lparr>questionList := False\<rparr>)))"

text \<open>The two continuations of the promise of \<open>evaluateExamResult\<close>.\<close>

definition evaluateExamResult_then :: "string \<times> int \<times> int \<Rightarrow> component \<Rightarrow> component" where
  "evaluateExamResult_then resultData s =
     (case resultData of (r, c, w) \<Rightarrow>
        emit Console_log (s\<lparr>result := r, correct := c, wrong := w, showResult := True\<rparr>))"

definition evaluateExamResult_catch :: "component \<Rightarrow> component" where
  "evaluateExamResult_catch s =
     emit (Alert ''There was an error submitting your exam. Please try again.'')
       (emit Console_error s)"

definition handleTimeUp :: "component \<Rightarrow> component" where
  "handleTimeUp s =
     showNotification (handleSubmit (emit (Alert ''Time is up! Submitting your exam.'') s))"

text \<open>The callback given to \<open>setInterval\<close>.\<close>

definition timer_callback :: "component \<Rightarrow> component" where
  "timer_callback s =
     (if seconds s = 0 then
        (if minutes s = 0 then handleTimeUp (s\<lparr>timerInterval := False\<rparr>)
         else s\<lparr>minutes := minutes s - 1, seconds := 59\<rparr>)
      else s\<lparr>seconds := seconds s - 1\<rparr>)"

text \<open>One period of the interval: the callback runs only while the interval is scheduled.\<close>

definition tick :: "component \<Rightarrow> component" where
  "tick s = (if timerInterval s then timer_callback s else s)"

subsection \<open>Sessions\<close>

text \<open>
  What the user and the clock can do to a loaded component. A handler that throws does so
  on its first read of the current question, before any assignment, so the component is
  left as it was.
\<close>

datatype ui_event =
    SelectOption string
  | MarkForReview
  | Next
  | Previous
  | JumpTo string
  | Submit
  | Tick

definition dispatch :: "ui_event \<Rightarrow> component \<Rightarrow> js_error + component" where
  "dispatch ev s =
     (case ev of
        SelectOption v \<Rightarrow> handleOptionChange v s
      | MarkForReview \<Rightarrow> handleReview s
      | Next \<Rightarrow> handleNext s
      | Previous \<Rightarrow> handlePrevious s
      | JumpTo str \<Rightarrow> Inr (handleBadgeClick str s)
      | Submit \<Rightarrow> Inr (handleSubmit s)
      | Tick \<Rightarrow> Inr (tick s))"

definition step :: "ui_event \<Rightarrow> component \<Rightarrow> component" where
  "step ev s = (case dispatch ev s of Inl _ \<Rightarrow> s | Inr s' \<Rightarrow> s')"

fun run :: "component \<Rightarrow> ui_event list \<Rightarrow> component" where
  "run s [] = s"
| "run s (ev # evs) = run (step ev s) evs"

text \<open>The component once mounted with its questions loaded.\<close>

definition loaded :: "string option \<Rightarrow> string option \<Rightarrow> question_dto list \<Rightarrow> component" where
  "loaded a e res = getQuestions_then res (connectedCallback (ExamStartScreen a e))"

subsection \<open>Vocabulary of the properties\<close>

text \<open>
  The display numbers (1-based positions, counted from \<open>k\<close>) of the questions of a list
  that have no selected option, in the order of the list.
\<close>

definition unanswered_positions :: "nat \<Rightarrow> question list \<Rightarrow> int list" where
  "unanswered_positions k qs =
     map (\<lambda>p. int (fst p) + 1) (filter (\<lambda>p. \<not> some_checked (snd p)) (enumerate k qs))"

text \<open>A grading request is a call of \<open>evaluateExamResult\<close>.\<close>

fun is_grading :: "effect \<Rightarrow> bool" where
  "is_grading (EvaluateExamResult _ _) = True"
| "is_grading _ = False"

text \<open>What a handler taking \<open>s\<close> to \<open>s'\<close> has sent to the outside.\<close>

definition issued :: "component \<Rightarrow> component \<Rightarrow> effect list" where
  "issued s s' = drop (length (effects s)) (effects s')"

definition success_toast :: effect where
  "success_toast =
     ShowToastEvent ''Success''
       ''Quiz submitted successfully! View your score on the results screen'' ''success''"

definition time_up_alert :: effect where
  "time_up_alert = Alert ''Time is up! Submitting your exam.''"

text \<open>The time left on the clock, in seconds.\<close>

definition remaining :: "component \<Rightarrow> int" where
  "remaining s = 60 * minutes s + seconds s"

text \<open>The current question as \<open>handleOptionChange\<close> leaves it when \<open>v\<close> is selected.\<close>

definition answer :: "string \<Rightarrow> question \<Rightarrow> question" where
  "answer v q = update_badge (q\<lparr>optionList := map (select_opt v) (optionList q)\<rparr>)"

text \<open>The capital letters in alphabetical order, counted from zero.\<close>

definition letter :: "nat \<Rightarrow> char" where
  "letter j = ''ABCDEFGHIJKLMNOPQRSTUVWXYZ'' ! j"

text \<open>The number of selected options of a question.\<close>

definition checked_count :: "question \<Rightarrow> nat" where
  "checked_count q = length (filter checked (optionList q))"

definition distinct_values :: "question \<Rightarrow> bool" where
  "distinct_values q = distinct (map opt_value (optionList q))"

definition one_choice :: "question \<Rightarrow> bool" where
  "one_choice q = (distinct_values q \<and> checked_count q \<le> 1)"

text \<open>
  Navigation whose jumps, when their input parses, name a display number between 1 and
  \<open>n\<close>.
\<close>

definition navigation_in_range :: "nat \<Rightarrow> ui_event \<Rightarrow> bool" where
  "navigation_in_range n ev =
     (case ev of
        Next \<Rightarrow> True
      | Previous \<Rightarrow> True
      | JumpTo str \<Rightarrow>
          (case parseInt10 str of None \<Rightarrow> True | Some k \<Rightarrow> 1 \<le> k \<and> k \<le> int n)
      | _ \<Rightarrow> False)"

text \<open>A session of two questions, used to instantiate the properties.\<close>

definition two_questions :: "question_dto list" where
  "two_questions =
     [\<lparr>dto_questionId = ''Q-1'', dto_questionText = ''first'', dto_options = [''x'', ''y'']\<rparr>,
      \<lparr>dto_questionId = ''Q-2'', dto_questionText = ''second'',
        dto_options = [''p'', ''q'', ''r'']\<rparr>]"

definition fresh_session :: component where
  "fresh_session = loaded (Some ''attendee'') (Some ''exam'') two_questions"

definition answered_session :: component where
  "answered_session = run fresh_session [SelectOption ''x'', Next, SelectOption ''q'']"

text \<open>The fresh session with its clock run down to zero.\<close>

definition expired_session :: component where
  "expired_session = fresh_session\<lparr>minutes := 0, seconds := 0\<rparr>"

text \<open>The fresh session after its first question has been marked for review.\<close>

definition reviewed_session :: component where
  "reviewed_session = run fresh_session [MarkForReview]"

text \<open>A question whose two options carry the same text, and one with five options.\<close>

definition twin_options :: "question_dto list" where
  "twin_options =
     [\<lparr>dto_questionId = ''Q-1'', dto_questionText = ''first'', dto_options = [''x'', ''x'']\<rparr>]"

definition five_options :: "question_dto list" where
  "five_options =
     [\<lparr>dto_questionId = ''Q-1'', dto_questionText = ''first'',
       dto_options = [''a'', ''b'', ''c'', ''d'', ''e'']\<rparr>]"

section \<open>Properties\<close>

subsection \<open>Rounding\<close>

text \<open>Integers up to \<open>2 ^ 53\<close> in magnitude are doubles.\<close>

lemma spacing_small: "a < 2 ^ 53 \<Longrightarrow> spacing a = 1"
  by (subst spacing.simps) simp

lemma to_double_exact:
  assumes "\<bar>m\<bar> \<le> 2 ^ 53"
  shows "to_double m = m"
proof -
  define a where "a = \<bar>m\<bar>"
  have r: "round_half_even a (spacing a) = a"
  proof (cases "a = 2 ^ 53")
    case True
    have "spacing (2 ^ 53) = 2 * spacing (2 ^ 53 div 2)"
      by (subst spacing.simps) simp
    moreover have "spacing (2 ^ 53 div 2) = 1"
      by (rule spacing_small) simp
    ultimately have "spacing (2 ^ 53) = 2"
      by simp
    then show ?thesis
      by (simp add: True round_half_even_def)
  next
    case False
    with assms have "a < 2 ^ 53" by (simp add: a_def)
    then have "spacing a = 1" by (rule spacing_small)
    then show ?thesis
      by (simp add: round_half_even_def)
  qed
  have lt: "a < js_infinity"
    using assms by (simp add: a_def js_infinity_def)
  have "to_double m =
      (if m < 0 then - min (round_half_even a (spacing a)) js_infinity
       else min (round_half_even a (spacing a)) js_infinity)"
    unfolding to_double_def Let_def a_def by (rule refl)
  also have "\<dots> = (if m < 0 then - a else a)"
    using r lt by simp
  also have "\<dots> = m"
    unfolding a_def by simp
  finally show ?thesis .
qed

subsection \<open>Submission\<close>

lemma find_checked_None: "(find checked (optionList q) = None) = (\<not> some_checked q)"
  by (auto simp: some_checked_def find_None_iff list_ex_iff)

lemma submit_scan_fst:
  "fst (submit_scan k qs (u, sel)) = u @ unanswered_positions k qs"
proof (induction qs arbitrary: k u sel)
  case Nil
  show ?case by (simp add: unanswered_positions_def)
next
  case (Cons q qs)
  show ?case
  proof (cases "find checked (optionList q)")
    case None
    then have "\<not> some_checked q" by (simp add: find_checked_None)
    with None Cons show ?thesis by (simp add: unanswered_positions_def)
  next
    case (Some a)
    then have "some_checked q" using find_checked_None [of q] by simp
    with Some Cons show ?thesis by (simp add: unanswered_positions_def)
  qed
qed

lemma unanswered_positions_sorted: "sorted_wrt (<) (unanswered_positions k qs)"
proof -
  have "sorted_wrt (\<lambda>p r. fst p < fst r) (enumerate k qs)"
    using sorted_wrt_map [of "(<)" fst "enumerate k qs"] by (simp add: map_fst_enumerate)
  then have "sorted_wrt (\<lambda>p r. fst p < fst r)
               (filter (\<lambda>p. \<not> some_checked (snd p)) (enumerate k qs))"
    by (rule sorted_wrt_filter)
  then show ?thesis
    unfolding unanswered_positions_def sorted_wrt_map
    by (rule sorted_wrt_mono_rel [rotated]) simp
qed

lemma unanswered_positions_set:
  "set (unanswered_positions 0 qs) = {int i + 1 | i. i < length qs \<and> \<not> some_checked (qs ! i)}"
  by (auto simp: unanswered_positions_def in_set_enumerate_eq image_iff)

lemma unanswered_positions_Nil:
  "(unanswered_positions 0 qs = []) = (\<forall>q\<in>set qs. some_checked q)"
proof -
  have "(unanswered_positions 0 qs = []) = (set (unanswered_positions 0 qs) = {})"
    by simp
  also have "\<dots> = (\<forall>i < length qs. some_checked (qs ! i))"
    unfolding unanswered_positions_set by auto
  also have "\<dots> = (\<forall>q\<in>set qs. some_checked q)"
    by (simp add: all_set_conv_all_nth)
  finally show ?thesis .
qed

text \<open>The two outcomes of \<open>handleSubmit\<close>, as updates of the component.\<close>

lemma handleSubmit_unanswered:
  assumes "\<not> (\<forall>q\<in>set (questions s). some_checked q)"
  shows "handleSubmit s =
           s\<lparr>timerInterval := False,
             unansweredQuestionNumbers := unanswered_positions 0 (questions s),
             effects := effects s @ [Console_warn (unanswered_positions 0 (questions s))]\<rparr>"
proof -
  have "unanswered_positions 0 (questions s) \<noteq> []"
    using assms by (simp add: unanswered_positions_Nil)
  then show ?thesis
    by (simp add: handleSubmit_def Let_def submit_scan_fst emit_def)
qed

lemma handleSubmit_answered:
  assumes "\<forall>q\<in>set (questions s). some_checked q"
  shows "handleSubmit s =
           s\<lparr>timerInterval := False, unansweredQuestionNumbers := [], questionList := False,
             effects := effects s @
               [success_toast, EvaluateExamResult (AttendeId s) (examId s)]\<rparr>"
proof -
  have "unanswered_positions 0 (questions s) = []"
    using assms by (simp add: unanswered_positions_Nil)
  then show ?thesis
    by (simp add: handleSubmit_def Let_def submit_scan_fst emit_def showNotification_def
        success_toast_def)
qed

text \<open>
  Claim C1. When at least one question has no selected option, \<open>handleSubmit\<close> sends
  nothing but a console warning, so no grading request, and afterwards
  \<open>unansweredQuestionNumbers\<close> holds exactly the 1-based positions of the questions
  with no selected option, in strictly ascending order.
\<close>

theorem submit_with_unanswered:
  assumes "\<exists>q\<in>set (questions s). \<not> some_checked q"
  shows "issued s (handleSubmit s) = [Console_warn (unansweredQuestionNumbers (handleSubmit s))]
       \<and> filter is_grading (issued s (handleSubmit s)) = []
       \<and> set (unansweredQuestionNumbers (handleSubmit s)) =
           {int i + 1 | i. i < length (questions s) \<and> \<not> some_checked (questions s ! i)}
       \<and> sorted_wrt (<) (unansweredQuestionNumbers (handleSubmit s))"
proof -
  have "\<not> (\<forall>q\<in>set (questions s). some_checked q)" using assms by blast
  note eq = handleSubmit_unanswered [OF this]
  show ?thesis
    by (simp add: eq issued_def unanswered_positions_set unanswered_positions_sorted)
qed

theorem submit_with_unanswered_witness:
  "(\<exists>q\<in>set (questions fresh_session). \<not> some_checked q)
   \<and> issued fresh_session (handleSubmit fresh_session) =
       [Console_warn (unansweredQuestionNumbers (handleSubmit fresh_session))]
   \<and> filter is_grading (issued fresh_session (handleSubmit fresh_session)) = []
   \<and> set (unansweredQuestionNumbers (handleSubmit fresh_session)) =
       {int i + 1 | i. i < length (questions fresh_session)
                       \<and> \<not> some_checked (questions fresh_session ! i)}
   \<and> sorted_wrt (<) (unansweredQuestionNumbers (handleSubmit fresh_session))"
proof -
  have h: "\<exists>q\<in>set (questions fresh_session). \<not> some_checked q"
    by code_simp
  from submit_with_unanswered [OF h] h show ?thesis by blast
qed

text \<open>
  Claim C2. When every question has a selected option, \<open>handleSubmit\<close> issues exactly
  one grading request, carrying the attendee identifier and the exam identifier, hides the
  question view (\<open>questionList\<close> becomes false) and dispatches the success toast.
\<close>

theorem submit_all_answered:
  assumes "\<forall>q\<in>set (questions s). some_checked q"
  shows "issued s (handleSubmit s) =
           [success_toast, EvaluateExamResult (AttendeId s) (examId s)]
       \<and> filter is_grading (issued s (handleSubmit s)) =
           [EvaluateExamResult (AttendeId s) (examId s)]
       \<and> questionList (handleSubmit s) = False"
  by (simp add: handleSubmit_answered [OF assms] issued_def success_toast_def)

theorem submit_all_answered_witness:
  "list_all some_checked (questions answered_session)
   \<and> issued answered_session (handleSubmit answered_session) =
       [success_toast,
        EvaluateExamResult (AttendeId answered_session) (examId answered_session)]
   \<and> filter is_grading (issued answered_session (handleSubmit answered_session)) =
       [EvaluateExamResult (AttendeId answered_session) (examId answered_session)]
   \<and> questionList (handleSubmit answered_session) = False"
proof -
  have h: "\<forall>q\<in>set (questions answered_session). some_checked q"
    by code_simp
  then have "list_all some_checked (questions answered_session)"
    by (simp add: list_all_iff)
  with submit_all_answered [OF h] show ?thesis by blast
qed

subsection \<open>The countdown\<close>

lemma handleSubmit_timer: "timerInterval (handleSubmit s) = False"
  by (simp add: handleSubmit_def Let_def emit_def showNotification_def)

lemma handleSubmit_issued_no_alert: "time_up_alert \<notin> set (issued s (handleSubmit s))"
proof (cases "\<forall>q\<in>set (questions s). some_checked q")
  case True
  show ?thesis
    by (simp add: handleSubmit_answered [OF True] issued_def time_up_alert_def success_toast_def)
next
  case False
  show ?thesis
    by (simp add: handleSubmit_unanswered [OF False] issued_def time_up_alert_def)
qed

lemma handleSubmit_effects: "effects (handleSubmit s) = effects s @ issued s (handleSubmit s)"
proof (cases "\<forall>q\<in>set (questions s). some_checked q")
  case True
  show ?thesis by (simp add: handleSubmit_answered [OF True] issued_def)
next
  case False
  show ?thesis by (simp add: handleSubmit_unanswered [OF False] issued_def)
qed

lemma handleTimeUp_issued:
  "issued s (handleTimeUp s) =
     time_up_alert # issued (emit time_up_alert s) (handleSubmit (emit time_up_alert s))
       @ [success_toast]"
proof -
  let ?s1 = "emit time_up_alert s"
  define es where "es = issued ?s1 (handleSubmit ?s1)"
  have "effects (handleSubmit ?s1) = effects ?s1 @ es"
    unfolding es_def by (rule handleSubmit_effects)
  then have "effects (handleSubmit ?s1) = effects s @ time_up_alert # es"
    by (simp add: emit_def)
  then have "effects (handleTimeUp s) = effects s @ time_up_alert # es @ [success_toast]"
    by (simp add: handleTimeUp_def showNotification_def emit_def time_up_alert_def
        success_toast_def)
  then have "issued s (handleTimeUp s) = time_up_alert # es @ [success_toast]"
    by (simp add: issued_def)
  then show ?thesis by (simp add: es_def)
qed

lemma handleTimeUp_timer: "timerInterval (handleTimeUp s) = False"
  by (simp add: handleTimeUp_def showNotification_def emit_def handleSubmit_timer)

lemma tick_stopped: "\<not> timerInterval s \<Longrightarrow> (tick ^^ n) s = s"
  by (induction n) (simp_all add: tick_def)

lemma tick_running:
  assumes "timerInterval s" "0 \<le> minutes s" "0 \<le> seconds s" "0 < remaining s"
  shows "\<exists>m r. tick s = s\<lparr>minutes := m, seconds := r\<rparr> \<and> 0 \<le> m \<and> 0 \<le> r
               \<and> 60 * m + r = remaining s - 1"
proof (cases "seconds s = 0")
  case True
  with assms have "tick s = s\<lparr>minutes := minutes s - 1, seconds := 59\<rparr>"
    by (auto simp: tick_def timer_callback_def remaining_def)
  moreover from True assms have "0 \<le> minutes s - 1" "60 * (minutes s - 1) + 59 = remaining s - 1"
    by (simp_all add: remaining_def)
  ultimately show ?thesis by (intro exI [of _ "minutes s - 1"] exI [of _ 59]) simp
next
  case False
  with assms have "tick s = s\<lparr>minutes := minutes s, seconds := seconds s - 1\<rparr>"
    by (simp add: tick_def timer_callback_def)
  moreover from False assms have "0 \<le> seconds s - 1"
      "60 * minutes s + (seconds s - 1) = remaining s - 1"
    by (simp_all add: remaining_def)
  ultimately show ?thesis
    using assms(2) by (intro exI [of _ "minutes s"] exI [of _ "seconds s - 1"]) simp
qed

lemma countdown:
  assumes "timerInterval s" "0 \<le> minutes s" "0 \<le> seconds s"
  shows "int k \<le> remaining s \<Longrightarrow>
         \<exists>m r. (tick ^^ k) s = s\<lparr>minutes := m, seconds := r\<rparr> \<and> 0 \<le> m \<and> 0 \<le> r
               \<and> 60 * m + r = remaining s - int k"
proof (induction k)
  case 0
  from assms show ?case
    by (intro exI [of _ "minutes s"] exI [of _ "seconds s"]) (simp add: remaining_def)
next
  case (Suc k)
  then obtain m r where
    k: "(tick ^^ k) s = s\<lparr>minutes := m, seconds := r\<rparr>" "0 \<le> m" "0 \<le> r"
       "60 * m + r = remaining s - int k"
    by auto
  let ?sk = "s\<lparr>minutes := m, seconds := r\<rparr>"
  have "timerInterval ?sk" "0 \<le> minutes ?sk" "0 \<le> seconds ?sk" "0 < remaining ?sk"
    using assms(1) k Suc.prems by (simp_all add: remaining_def)
  from tick_running [OF this] obtain m' r' where
    "tick ?sk = ?sk\<lparr>minutes := m', seconds := r'\<rparr>" "0 \<le> m'" "0 \<le> r'"
    "60 * m' + r' = remaining ?sk - 1"
    by blast
  with k show ?case
    by (intro exI [of _ m'] exI [of _ r']) (simp add: remaining_def)
qed

lemma expiry:
  assumes "timerInterval s" "minutes s = 2" "seconds s = 0"
  shows "(tick ^^ 121) s = handleTimeUp (s\<lparr>minutes := 0, seconds := 0, timerInterval := False\<rparr>)"
proof -
  have "int 120 \<le> remaining s" using assms by (simp add: remaining_def)
  from countdown [OF assms(1) _ _ this] assms obtain m r where
    "(tick ^^ 120) s = s\<lparr>minutes := m, seconds := r\<rparr>" "0 \<le> m" "0 \<le> r" "60 * m + r = 0"
    by (auto simp: remaining_def)
  then have "(tick ^^ 120) s = s\<lparr>minutes := 0, seconds := 0\<rparr>"
    by simp
  moreover have "(tick ^^ 121) s = tick ((tick ^^ 120) s)"
    by (simp add: numeral_eq_Suc)
  ultimately show ?thesis using assms(1)
    by (simp add: tick_def timer_callback_def)
qed

lemma before_expiry:
  assumes "timerInterval s" "minutes s = 2" "seconds s = 0" "k \<le> 120"
  shows "issued s ((tick ^^ k) s) = [] \<and> timerInterval ((tick ^^ k) s)"
proof -
  have "int k \<le> remaining s" using assms by (simp add: remaining_def)
  from countdown [OF assms(1) _ _ this] assms obtain m r where
    "(tick ^^ k) s = s\<lparr>minutes := m, seconds := r\<rparr>"
    by auto
  with assms(1) show ?thesis by (simp add: issued_def)
qed

text \<open>
  Claim C3. From two minutes and zero seconds, with the interval scheduled, the first 120
  ticks send nothing and leave the interval scheduled; the 121st tick is the call of
  \<open>handleTimeUp\<close>, the forced submission, which happens once; the interval is then
  cleared, and no later tick changes anything.
\<close>

theorem timer_two_minutes:
  assumes "timerInterval s" "minutes s = 2" "seconds s = 0"
  shows "(\<forall>k\<le>120. issued s ((tick ^^ k) s) = [] \<and> timerInterval ((tick ^^ k) s))
       \<and> (tick ^^ 121) s =
           handleTimeUp (s\<lparr>minutes := 0, seconds := 0, timerInterval := False\<rparr>)
       \<and> count_list (issued s ((tick ^^ 121) s)) time_up_alert = 1
       \<and> \<not> timerInterval ((tick ^^ 121) s)
       \<and> (\<forall>n. (tick ^^ (121 + n)) s = (tick ^^ 121) s)"
proof -
  let ?s0 = "s\<lparr>minutes := 0, seconds := 0, timerInterval := False\<rparr>"
  have run: "\<forall>k\<le>120. issued s ((tick ^^ k) s) = [] \<and> timerInterval ((tick ^^ k) s)"
    using before_expiry [OF assms] by blast
  have exp: "(tick ^^ 121) s = handleTimeUp ?s0"
    by (rule expiry [OF assms])
  have "issued s (handleTimeUp ?s0) = issued ?s0 (handleTimeUp ?s0)"
    by (simp add: issued_def)
  then have cnt: "count_list (issued s ((tick ^^ 121) s)) time_up_alert = 1"
    using handleSubmit_issued_no_alert [of "emit time_up_alert ?s0"]
    by (simp add: exp handleTimeUp_issued success_toast_def time_up_alert_def)
  have off: "\<not> timerInterval ((tick ^^ 121) s)"
    by (simp add: exp handleTimeUp_timer)
  have "\<forall>n. (tick ^^ (121 + n)) s = (tick ^^ 121) s"
  proof
    fix n
    have "(tick ^^ (121 + n)) s = (tick ^^ n) ((tick ^^ 121) s)"
      by (simp add: add.commute funpow_add)
    with off show "(tick ^^ (121 + n)) s = (tick ^^ 121) s"
      by (simp add: tick_stopped)
  qed
  with run exp cnt off show ?thesis by blast
qed

lemma fresh_session_clock:
  "timerInterval fresh_session" "minutes fresh_session = 2" "seconds fresh_session = 0"
  by (simp_all add: fresh_session_def loaded_def getQuestions_then_def connectedCallback_def
      ExamStartScreen_def startTimer_def loadQuestions_def emit_def)

theorem timer_two_minutes_witness:
  "timerInterval fresh_session \<and> minutes fresh_session = 2 \<and> seconds fresh_session = 0
   \<and> issued fresh_session ((tick ^^ 120) fresh_session) = []
   \<and> timerInterval ((tick ^^ 120) fresh_session)
   \<and> count_list (issued fresh_session ((tick ^^ 121) fresh_session)) time_up_alert = 1
   \<and> \<not> timerInterval ((tick ^^ 121) fresh_session)
   \<and> (tick ^^ (121 + 7)) fresh_session = (tick ^^ 121) fresh_session"
proof -
  note T = timer_two_minutes [OF fresh_session_clock]
  have a: "issued fresh_session ((tick ^^ 120) fresh_session) = []
      \<and> timerInterval ((tick ^^ 120) fresh_session)"
    using T [THEN conjunct1] by simp
  note r = T [THEN conjunct2, THEN conjunct2]
  have c: "count_list (issued fresh_session ((tick ^^ 121) fresh_session)) time_up_alert = 1"
    by (rule r [THEN conjunct1])
  have d: "\<not> timerInterval ((tick ^^ 121) fresh_session)"
    by (rule r [THEN conjunct2, THEN conjunct1])
  have b: "(tick ^^ (121 + 7)) fresh_session = (tick ^^ 121) fresh_session"
    by (rule r [THEN conjunct2, THEN conjunct2, THEN spec])
  from a b c d fresh_session_clock show ?thesis by simp
qed

lemma expired_session_reached: "(tick ^^ 120) fresh_session = expired_session"
proof -
  have "int 120 \<le> remaining fresh_session"
    by (simp add: remaining_def fresh_session_clock)
  from countdown [OF fresh_session_clock(1) _ _ this] obtain m r where
    "(tick ^^ 120) fresh_session = fresh_session\<lparr>minutes := m, seconds := r\<rparr>"
    "0 \<le> m" "0 \<le> r" "60 * m + r = 0"
    by (auto simp: remaining_def fresh_session_clock)
  then show ?thesis by (simp add: expired_session_def)
qed

text \<open>
  Claim C9. When the clock reaches zero while some question has no selected option, the
  tick raises the time-up alert, the forced submission stops at the warning without a
  grading request, the success toast is dispatched all the same, the interval is cleared,
  the question view and the result view stay as they were, and further ticks do nothing.
\<close>

theorem time_up_with_unanswered:
  assumes "timerInterval s" "minutes s = 0" "seconds s = 0"
    and "\<exists>q\<in>set (questions s). \<not> some_checked q"
  shows "issued s (tick s) =
           [time_up_alert, Console_warn (unansweredQuestionNumbers (tick s)), success_toast]
       \<and> filter is_grading (issued s (tick s)) = []
       \<and> \<not> timerInterval (tick s)
       \<and> questionList (tick s) = questionList s
       \<and> showResult (tick s) = showResult s
       \<and> questions (tick s) = questions s
       \<and> (\<forall>n. (tick ^^ n) (tick s) = tick s)"
proof -
  define s1 where "s1 = emit time_up_alert (s\<lparr>timerInterval := False\<rparr>)"
  have t: "tick s = showNotification (handleSubmit s1)"
    using assms(1-3)
    by (simp add: tick_def timer_callback_def handleTimeUp_def time_up_alert_def s1_def)
  have s1: "questions s1 = questions s" "effects s1 = effects s @ [time_up_alert]"
    "questionList s1 = questionList s" "showResult s1 = showResult s"
    by (simp_all add: s1_def emit_def)
  have "\<not> (\<forall>q\<in>set (questions s1). some_checked q)"
    using assms(4) by (simp add: s1)
  note eq = handleSubmit_unanswered [OF this]
  have off: "\<not> timerInterval (tick s)"
    by (simp add: t eq showNotification_def emit_def)
  then have "\<forall>n. (tick ^^ n) (tick s) = tick s"
    by (simp add: tick_stopped)
  with off show ?thesis
    by (simp add: t eq s1 showNotification_def emit_def issued_def success_toast_def
        time_up_alert_def)
qed

theorem time_up_with_unanswered_witness:
  "timerInterval expired_session \<and> minutes expired_session = 0 \<and> seconds expired_session = 0
   \<and> list_ex (\<lambda>q. \<not> some_checked q) (questions expired_session)
   \<and> issued expired_session (tick expired_session) =
       [time_up_alert, Console_warn [1, 2], success_toast]
   \<and> filter is_grading (issued expired_session (tick expired_session)) = []
   \<and> \<not> timerInterval (tick expired_session)
   \<and> questionList (tick expired_session)
   \<and> (tick ^^ 9) (tick expired_session) = tick expired_session"
proof -
  have h: "timerInterval expired_session" "minutes expired_session = 0"
    "seconds expired_session = 0"
    by (simp_all add: expired_session_def fresh_session_clock)
  have q: "\<exists>q\<in>set (questions expired_session). \<not> some_checked q"
    by code_simp
  then have q': "list_ex (\<lambda>q. \<not> some_checked q) (questions expired_session)"
    by (simp add: list_ex_iff)
  have u: "unansweredQuestionNumbers (tick expired_session) = [1, 2]"
    "questionList expired_session"
    by code_simp+
  from time_up_with_unanswered [OF h q] h q' u show ?thesis
    by (simp add: success_toast_def time_up_alert_def)
qed

subsection \<open>Selecting an option\<close>

lemma currentQuestion_Some:
  "(currentQuestion s = Some q) =
     (0 \<le> currentQuestionIndex s \<and> currentQuestionIndex s < int (length (questions s))
      \<and> q = questions s ! nat (currentQuestionIndex s))"
  by (auto simp: currentQuestion_def Let_def)

lemma updateUnansweredTracking_Inr:
  assumes "currentQuestion s = Some q"
  shows "\<exists>u. updateUnansweredTracking s = Inr (s\<lparr>unansweredQuestionNumbers := u\<rparr>)
           \<and> set u \<subseteq> insert (currentQuestionIndex s + 1) (set (unansweredQuestionNumbers s))
           \<and> (distinct (unansweredQuestionNumbers s) \<longrightarrow> distinct u)"
proof (cases "some_checked q")
  case True
  with assms show ?thesis
    by (intro exI [of _ "filter (\<lambda>num. num \<noteq> currentQuestionIndex s + 1)
          (unansweredQuestionNumbers s)"])
       (auto simp: updateUnansweredTracking_def Let_def)
next
  case False
  show ?thesis
  proof (cases "currentQuestionIndex s + 1 \<in> set (unansweredQuestionNumbers s)")
    case True
    with False assms show ?thesis
      by (intro exI [of _ "unansweredQuestionNumbers s"])
         (auto simp: updateUnansweredTracking_def Let_def)
  next
    case nin: False
    with False assms show ?thesis
      by (intro exI [of _ "unansweredQuestionNumbers s @ [currentQuestionIndex s + 1]"])
         (auto simp: updateUnansweredTracking_def Let_def)
  qed
qed

lemma updateUnansweredTracking_Inl:
  "currentQuestion s = None \<Longrightarrow> updateUnansweredTracking s = Inl TypeError"
  by (simp add: updateUnansweredTracking_def)

lemma save_response_fields:
  "questions (save_response q s) = questions s"
  "currentQuestionIndex (save_response q s) = currentQuestionIndex s"
  "unansweredQuestionNumbers (save_response q s) = unansweredQuestionNumbers s"
  by (simp_all add: save_response_def emit_def split: option.split)

lemma handleOptionChange_Inr:
  assumes "currentQuestion s = Some q"
  shows "\<exists>s'. handleOptionChange v s = Inr s'
           \<and> questions s' = (questions s)[nat (currentQuestionIndex s) := answer v q]
           \<and> currentQuestionIndex s' = currentQuestionIndex s
           \<and> set (unansweredQuestionNumbers s') \<subseteq>
               insert (currentQuestionIndex s + 1) (set (unansweredQuestionNumbers s))
           \<and> (distinct (unansweredQuestionNumbers s) \<longrightarrow> distinct (unansweredQuestionNumbers s'))"
proof -
  define s1 where "s1 = s\<lparr>questions := (questions s)[nat (currentQuestionIndex s) := answer v q]\<rparr>"
  from assms have "currentQuestion s1 = Some (answer v q)"
    by (simp add: currentQuestion_Some s1_def nat_less_iff)
  from updateUnansweredTracking_Inr [OF this] obtain u where
    u: "updateUnansweredTracking s1 = Inr (s1\<lparr>unansweredQuestionNumbers := u\<rparr>)"
       "set u \<subseteq> insert (currentQuestionIndex s1 + 1) (set (unansweredQuestionNumbers s1))"
       "distinct (unansweredQuestionNumbers s1) \<longrightarrow> distinct u"
    by blast
  have "handleOptionChange v s =
          Inr (save_response (answer v q) (s1\<lparr>unansweredQuestionNumbers := u\<rparr>))"
    using assms u(1) by (simp add: handleOptionChange_def Let_def answer_def s1_def)
  with u(2,3) show ?thesis
    by (simp add: save_response_fields s1_def)
qed

lemma some_checked_answer:
  "some_checked (q\<lparr>optionList := map (select_opt v) (optionList q)\<rparr>) =
     (v \<in> opt_value ` set (optionList q))"
  by (auto simp: some_checked_def list_ex_iff select_opt_def)

lemma answer_hit:
  assumes "v \<in> opt_value ` set (optionList q)"
  shows "badgeClass (answer v q) = ''badge answered''" "\<not> reviewed (answer v q)"
    "optionList (answer v q) = map (select_opt v) (optionList q)"
  using assms some_checked_answer [of v q] by (simp_all add: answer_def update_badge_def)

text \<open>
  Claim C6. When the current question is flagged for review and shows the review badge,
  selecting the value of any of its options succeeds and leaves that question with the
  answered badge and the review flag cleared.
\<close>

theorem select_on_reviewed:
  assumes "currentQuestion s = Some q" "reviewed q" "badgeClass q = ''badge review''"
    and "v \<in> opt_value ` set (optionList q)"
  shows "\<exists>s' q'. handleOptionChange v s = Inr s' \<and> currentQuestion s' = Some q'
           \<and> badgeClass q' = ''badge answered'' \<and> \<not> reviewed q'"
proof -
  from handleOptionChange_Inr [OF assms(1), of v] obtain s' where
    s': "handleOptionChange v s = Inr s'"
        "questions s' = (questions s)[nat (currentQuestionIndex s) := answer v q]"
        "currentQuestionIndex s' = currentQuestionIndex s"
    by blast
  from assms(1) s'(2,3) have "currentQuestion s' = Some (answer v q)"
    by (simp add: currentQuestion_Some nat_less_iff)
  with s'(1) answer_hit(1,2) [OF assms(4)] show ?thesis by blast
qed

theorem select_on_reviewed_witness:
  "(\<exists>q. currentQuestion reviewed_session = Some q \<and> reviewed q
        \<and> badgeClass q = ''badge review'' \<and> ''y'' \<in> opt_value ` set (optionList q))
   \<and> (\<exists>s' q'. handleOptionChange ''y'' reviewed_session = Inr s'
        \<and> currentQuestion s' = Some q' \<and> badgeClass q' = ''badge answered''
        \<and> \<not> reviewed q')"
proof -
  let ?q = "questions reviewed_session ! 0"
  have h: "currentQuestion reviewed_session = Some ?q" "reviewed ?q"
    "badgeClass ?q = ''badge review''" "''y'' \<in> opt_value ` set (optionList ?q)"
    by code_simp+
  from select_on_reviewed [OF h] h show ?thesis by blast
qed

subsection \<open>Jumping\<close>

lemma parseInt10_digits:
  assumes "ds \<noteq> []" "list_all is_digit ds"
  shows "parseInt10 ds = Some (to_double (digits_value ds))"
proof -
  from assms obtain c cs where ds: "ds = c # cs" by (cases ds) auto
  with assms(2) have c: "is_digit c" by simp
  then have "\<not> js_whitespace c" "c \<noteq> CHR ''-''" "c \<noteq> CHR ''+''"
    by (auto simp: is_digit_def js_whitespace_def)
  moreover have "takeWhile is_digit ds = ds"
    using assms(2) by (simp add: list_all_iff)
  ultimately show ?thesis
    using ds by (simp add: parseInt10_def)
qed

text \<open>
  Claim C8, amended. \<open>handleBadgeClick\<close> with an input that parses to an integer \<open>n\<close>
  with \<open>- 2 ^ 53 < n\<close> and \<open>n \<le> 2 ^ 53\<close>, which covers the safe integers, sets the pointer
  to \<open>n - 1\<close>, so that for \<open>n\<close> between 1 and the number of questions the current
  question is the \<open>n\<close>-th one; with an input that does not parse it changes nothing. In
  particular ``3'' sets the pointer to 2 and ``abc'' leaves the component as it was.
\<close>

theorem jump_to:
  "(parseInt10 str = Some n \<and> - (2 ^ 53) < n \<and> n \<le> 2 ^ 53 \<longrightarrow>
      handleBadgeClick str s = s\<lparr>currentQuestionIndex := n - 1\<rparr>)
   \<and> (parseInt10 str = Some n \<and> 1 \<le> n \<and> n \<le> int (length (questions s)) \<and> n \<le> 2 ^ 53 \<longrightarrow>
        currentQuestion (handleBadgeClick str s) = Some (questions s ! nat (n - 1)))
   \<and> (parseInt10 str = None \<longrightarrow> handleBadgeClick str s = s)
   \<and> currentQuestionIndex (handleBadgeClick ''3'' s) = 2
   \<and> handleBadgeClick ''abc'' s = s"
proof -
  have p: "parseInt10 ''3'' = Some 3" "parseInt10 ''abc'' = None"
    by (simp_all add: parseInt10_def js_whitespace_def is_digit_def digits_value_def
        to_double_exact)
  have e: "to_double (n - 1) = n - 1" if "- (2 ^ 53) < n" "n \<le> 2 ^ 53"
    using that by (intro to_double_exact) simp
  have a: "handleBadgeClick str s = s\<lparr>currentQuestionIndex := n - 1\<rparr>"
    if "parseInt10 str = Some n" "- (2 ^ 53) < n" "n \<le> 2 ^ 53"
    using that e by (simp add: handleBadgeClick_def)
  have b: "currentQuestion (handleBadgeClick str s) = Some (questions s ! nat (n - 1))"
    if "parseInt10 str = Some n" "1 \<le> n" "n \<le> int (length (questions s))" "n \<le> 2 ^ 53"
  proof -
    from that have "handleBadgeClick str s = s\<lparr>currentQuestionIndex := n - 1\<rparr>"
      by (intro a) simp_all
    with that show ?thesis by (simp add: currentQuestion_def)
  qed
  have c: "handleBadgeClick str s = s" if "parseInt10 str = None"
    using that by (simp add: handleBadgeClick_def)
  have d: "currentQuestionIndex (handleBadgeClick ''3'' s) = 2"
    by (simp add: handleBadgeClick_def p to_double_exact)
  have f: "handleBadgeClick ''abc'' s = s"
    by (simp add: handleBadgeClick_def p)
  from a b c d f show ?thesis by blast
qed

theorem jump_to_witness:
  "parseInt10 ''2'' = Some 2
   \<and> handleBadgeClick ''2'' fresh_session = fresh_session\<lparr>currentQuestionIndex := 2 - 1\<rparr>
   \<and> currentQuestion (handleBadgeClick ''2'' fresh_session) =
       Some (questions fresh_session ! nat (2 - 1))
   \<and> parseInt10 ''abc'' = None
   \<and> handleBadgeClick ''abc'' fresh_session = fresh_session"
proof -
  have p: "parseInt10 ''2'' = Some 2" "parseInt10 ''abc'' = None"
    by (simp_all add: parseInt10_def js_whitespace_def is_digit_def digits_value_def
        to_double_exact)
  have l: "(1::int) \<le> 2 \<and> 2 \<le> int (length (questions fresh_session))"
    by code_simp
  have r: "- (2 ^ 53) < (2::int) \<and> (2::int) \<le> 2 ^ 53"
    by simp
  note J = jump_to [of "''2''" 2 fresh_session]
  from J p(1) r have a: "handleBadgeClick ''2'' fresh_session =
      fresh_session\<lparr>currentQuestionIndex := 2 - 1\<rparr>"
    by blast
  from J p(1) l r have b: "currentQuestion (handleBadgeClick ''2'' fresh_session) =
      Some (questions fresh_session ! nat (2 - 1))"
    by blast
  from J have c: "handleBadgeClick ''abc'' fresh_session = fresh_session"
    by blast
  from a b c p show ?thesis by blast
qed

text \<open>
  Beyond that range the subtraction rounds: ``9007199254740994'' parses to
  \<open>2 ^ 53 + 2\<close>, and the pointer becomes \<open>2 ^ 53\<close>, which is not \<open>n - 1\<close>.
\<close>

theorem jump_beyond_safe_counterexample:
  "parseInt10 ''9007199254740994'' = Some 9007199254740994
   \<and> currentQuestionIndex (handleBadgeClick ''9007199254740994'' fresh_session) =
       9007199254740992
   \<and> currentQuestionIndex (handleBadgeClick ''9007199254740994'' fresh_session) \<noteq>
       9007199254740994 - 1"
  by code_simp

subsection \<open>Loading\<close>

lemma labels_at_letter: "j < 4 \<Longrightarrow> labels_at j = [letter j]"
proof -
  assume "j < 4"
  then consider "j = 0" | "j = 1" | "j = 2" | "j = 3" by linarith
  then show ?thesis
    by cases (simp_all add: labels_at_def labels_def letter_def)
qed

lemma make_question_fields:
  "questionNumber (make_question (i, d)) = int i + 1"
  "badgeClass (make_question (i, d)) = ''badge unanswered''"
  "reviewed (make_question (i, d)) = False"
  "questionId (make_question (i, d)) = dto_questionId d"
  "questionText (make_question (i, d)) = dto_questionText d"
  "optionList (make_question (i, d)) = map make_option (enumerate 0 (dto_options d))"
  by (simp_all add: make_question_def)

lemma loaded_question:
  assumes "i < length res"
  shows "questions (getQuestions_then res s) ! i = make_question (i, res ! i)"
  using assms by (simp add: getQuestions_then_def emit_def nth_enumerate_eq)

lemma loaded_option:
  assumes "j < length (dto_options d)"
  shows "optionList (make_question (i, d)) ! j = make_option (j, dto_options d ! j)"
  using assms by (simp add: make_question_def nth_enumerate_eq)

text \<open>
  Claim C7, amended. The loader keeps the order and number of questions and of options,
  gives each question its 1-based position as display number, the unanswered badge and
  no review flag, and gives each option its text as value, unselected; each of the first
  four options of a question is labelled with its letter among A, B, C, D, a colon, a
  space and the option text. For options x, y and p, q, r the labels are ``A: x'',
  ``B: y'' and ``A: p'', ``B: q'', ``C: r''.
\<close>

theorem loaded_questions:
  "length (questions (getQuestions_then res s)) = length res
   \<and> (\<forall>i<length res.
        questionNumber (questions (getQuestions_then res s) ! i) = int i + 1
        \<and> badgeClass (questions (getQuestions_then res s) ! i) = ''badge unanswered''
        \<and> \<not> reviewed (questions (getQuestions_then res s) ! i)
        \<and> length (optionList (questions (getQuestions_then res s) ! i)) =
            length (dto_options (res ! i))
        \<and> (\<forall>j<length (dto_options (res ! i)).
             opt_value (optionList (questions (getQuestions_then res s) ! i) ! j) =
               dto_options (res ! i) ! j
             \<and> \<not> checked (optionList (questions (getQuestions_then res s) ! i) ! j)
             \<and> (j < 4 \<longrightarrow>
                  label (optionList (questions (getQuestions_then res s) ! i) ! j) =
                    [letter j] @ '': '' @ dto_options (res ! i) ! j)))
   \<and> map (\<lambda>q. map label (optionList q)) (questions (getQuestions_then two_questions s)) =
       [[''A: x'', ''B: y''], [''A: p'', ''B: q'', ''C: r'']]"
proof -
  have len: "length (questions (getQuestions_then res s)) = length res"
    by (simp add: getQuestions_then_def emit_def)
  have ex: "map (\<lambda>q. map label (optionList q)) (questions (getQuestions_then two_questions s)) =
       [[''A: x'', ''B: y''], [''A: p'', ''B: q'', ''C: r'']]"
    by (simp add: getQuestions_then_def emit_def two_questions_def make_question_def
        make_option_def labels_at_def labels_def)
  have opt: "opt_value (make_option (j, x)) = x \<and> \<not> checked (make_option (j, x))
      \<and> (j < 4 \<longrightarrow> label (make_option (j, x)) = [letter j] @ '': '' @ x)"
    for j x
    by (simp add: make_option_def labels_at_letter)
  show ?thesis
    using len ex opt
    by (simp add: loaded_question loaded_option make_question_fields(1-3))
       (simp add: make_question_fields(6))
qed

theorem loaded_questions_witness:
  "length (questions fresh_session) = 2
   \<and> questionNumber (questions fresh_session ! 1) = 2
   \<and> label (optionList (questions fresh_session ! 1) ! 2) = ''C: r''"
proof -
  define s where "s = connectedCallback (ExamStartScreen (Some ''attendee'') (Some ''exam''))"
  have f: "fresh_session = getQuestions_then two_questions s"
    by (simp add: fresh_session_def loaded_def s_def)
  note L = loaded_questions [of two_questions s]
  have n: "length two_questions = 2" "(1::nat) < length two_questions"
    "(2::nat) < length (dto_options (two_questions ! 1))"
    "dto_options (two_questions ! 1) ! 2 = ''r''"
    by (simp_all add: two_questions_def)
  from L n(1) have a: "length (questions (getQuestions_then two_questions s)) = 2"
    by simp
  note Q = L [THEN conjunct2, THEN conjunct1, rule_format, OF n(2)]
  from Q have b: "questionNumber (questions (getQuestions_then two_questions s) ! 1) = 2"
    by simp
  note O = Q [THEN conjunct2, THEN conjunct2, THEN conjunct2, THEN conjunct2, rule_format,
    OF n(3)]
  from O n(4) have c:
    "label (optionList (questions (getQuestions_then two_questions s) ! 1) ! 2) = ''C: r''"
    by (simp add: letter_def)
  from a b c show ?thesis unfolding f by blast
qed

theorem fifth_option_counterexample:
  "label (optionList (questions (loaded (Some ''attendee'') (Some ''exam'') five_options) ! 0)
      ! 4) = ''undefined: e''
   \<and> label (optionList (questions (loaded (Some ''attendee'') (Some ''exam'') five_options) ! 0)
      ! 4) \<noteq> ''E: e''"
  by code_simp

subsection \<open>What the handlers change\<close>

lemma handleSubmit_fields:
  "questions (handleSubmit s) = questions s"
  "currentQuestionIndex (handleSubmit s) = currentQuestionIndex s"
  "unansweredQuestionNumbers (handleSubmit s) = unanswered_positions 0 (questions s)"
proof -
  show "questions (handleSubmit s) = questions s"
    by (simp add: handleSubmit_def Let_def emit_def showNotification_def)
  show "currentQuestionIndex (handleSubmit s) = currentQuestionIndex s"
    by (simp add: handleSubmit_def Let_def emit_def showNotification_def)
  show "unansweredQuestionNumbers (handleSubmit s) = unanswered_positions 0 (questions s)"
    by (simp add: handleSubmit_def Let_def emit_def showNotification_def submit_scan_fst)
qed

lemma unanswered_positions_distinct: "distinct (unanswered_positions k qs)"
  using unanswered_positions_sorted [of k qs] by (simp add: strict_sorted_iff)

lemma tick_fields:
  "questions (tick s) = questions s"
  "currentQuestionIndex (tick s) = currentQuestionIndex s"
  "unansweredQuestionNumbers (tick s) = unansweredQuestionNumbers s
     \<or> unansweredQuestionNumbers (tick s) = unanswered_positions 0 (questions s)"
  by (simp_all add: tick_def timer_callback_def handleTimeUp_def showNotification_def emit_def
      handleSubmit_fields)

lemma handleReview_Inr:
  assumes "currentQuestion s = Some q"
  shows "handleReview s =
           Inr (s\<lparr>questions := (questions s)[nat (currentQuestionIndex s) :=
                     q\<lparr>reviewed := True, badgeClass := ''badge review''\<rparr>]\<rparr>)"
  using assms by (simp add: handleReview_def)

lemma handleNext_Inr:
  assumes "currentQuestion s = Some q"
  shows "\<exists>u. handleNext s =
             Inr (s\<lparr>unansweredQuestionNumbers := u,
                    currentQuestionIndex :=
                      (if currentQuestionIndex s < int (length (questions s)) - 1
                       then currentQuestionIndex s + 1 else currentQuestionIndex s)\<rparr>)
           \<and> (distinct (unansweredQuestionNumbers s) \<longrightarrow> distinct u)"
proof -
  from updateUnansweredTracking_Inr [OF assms] obtain u where
    "updateUnansweredTracking s = Inr (s\<lparr>unansweredQuestionNumbers := u\<rparr>)"
    "distinct (unansweredQuestionNumbers s) \<longrightarrow> distinct u"
    by blast
  then show ?thesis
    by (intro exI [of _ u]) (simp add: handleNext_def)
qed

lemma handlePrevious_Inr:
  assumes "currentQuestion s = Some q"
  shows "\<exists>u. handlePrevious s =
             Inr (s\<lparr>unansweredQuestionNumbers := u,
                    currentQuestionIndex :=
                      (if currentQuestionIndex s > 0
                       then currentQuestionIndex s - 1 else currentQuestionIndex s)\<rparr>)
           \<and> (distinct (unansweredQuestionNumbers s) \<longrightarrow> distinct u)"
proof -
  from updateUnansweredTracking_Inr [OF assms] obtain u where
    "updateUnansweredTracking s = Inr (s\<lparr>unansweredQuestionNumbers := u\<rparr>)"
    "distinct (unansweredQuestionNumbers s) \<longrightarrow> distinct u"
    by blast
  then show ?thesis
    by (intro exI [of _ u]) (simp add: handlePrevious_def)
qed

text \<open>A handler that throws leaves the component as it was.\<close>

lemma step_throw:
  "currentQuestion s = None \<Longrightarrow> ev \<in> {SelectOption v, MarkForReview, Next, Previous}
     \<Longrightarrow> step ev s = s"
  by (auto simp: step_def dispatch_def handleOptionChange_def handleReview_def handleNext_def
      handlePrevious_def updateUnansweredTracking_Inl)

subsection \<open>No duplicates among the unanswered numbers\<close>

lemma step_distinct:
  assumes "distinct (unansweredQuestionNumbers s)"
  shows "distinct (unansweredQuestionNumbers (step ev s))"
proof (cases "currentQuestion s")
  case None
  show ?thesis
  proof (cases ev)
    case (JumpTo str)
    with assms show ?thesis
      by (simp add: step_def dispatch_def handleBadgeClick_def split: option.split)
  next
    case Submit
    then show ?thesis
      by (simp add: step_def dispatch_def handleSubmit_fields unanswered_positions_distinct)
  next
    case Tick
    with assms tick_fields(3) [of s] show ?thesis
      by (auto simp: step_def dispatch_def unanswered_positions_distinct)
  qed (use None assms step_throw in simp_all)
next
  case (Some q)
  show ?thesis
  proof (cases ev)
    case (SelectOption v)
    from handleOptionChange_Inr [OF Some, of v] assms SelectOption show ?thesis
      by (auto simp: step_def dispatch_def)
  next
    case MarkForReview
    with assms handleReview_Inr [OF Some] show ?thesis
      by (simp add: step_def dispatch_def)
  next
    case Next
    from handleNext_Inr [OF Some] assms Next show ?thesis
      by (auto simp: step_def dispatch_def)
  next
    case Previous
    from handlePrevious_Inr [OF Some] assms Previous show ?thesis
      by (auto simp: step_def dispatch_def)
  next
    case (JumpTo str)
    with assms show ?thesis
      by (simp add: step_def dispatch_def handleBadgeClick_def split: option.split)
  next
    case Submit
    then show ?thesis
      by (simp add: step_def dispatch_def handleSubmit_fields unanswered_positions_distinct)
  next
    case Tick
    with assms tick_fields(3) [of s] show ?thesis
      by (auto simp: step_def dispatch_def unanswered_positions_distinct)
  qed
qed

lemma run_distinct:
  "distinct (unansweredQuestionNumbers s) \<Longrightarrow> distinct (unansweredQuestionNumbers (run s evs))"
  by (induction evs arbitrary: s) (simp_all add: step_distinct)

lemma loaded_fields:
  "unansweredQuestionNumbers (loaded a e res) = []"
  "currentQuestionIndex (loaded a e res) = 0"
  "questions (loaded a e res) = map make_question (enumerate 0 res)"
  by (simp_all add: loaded_def getQuestions_then_def connectedCallback_def ExamStartScreen_def
      startTimer_def loadQuestions_def emit_def split: option.split)

text \<open>
  Claim C10. In every state that a loaded session reaches by selecting, marking for
  review, navigating, jumping, submitting and timer ticks, the unanswered list has no
  duplicate: \<open>updateUnansweredTracking\<close> appends a number only when it is absent, and
  \<open>handleSubmit\<close> rebuilds the list from the positions.
\<close>

theorem unanswered_numbers_distinct:
  "distinct (unansweredQuestionNumbers (run (loaded a e res) evs))"
  by (rule run_distinct) (simp add: loaded_fields)

theorem unanswered_numbers_distinct_witness:
  "distinct (unansweredQuestionNumbers
     (run (loaded (Some ''attendee'') (Some ''exam'') two_questions)
        [Next, Previous, Next, SelectOption ''q'', Submit, Previous, Next]))"
  by (rule unanswered_numbers_distinct)

subsection \<open>At most one selected option\<close>

lemma filter_value_le_1:
  "distinct (map f xs) \<Longrightarrow> length (filter (\<lambda>x. f x = v) xs) \<le> Suc 0"
proof (induction xs)
  case Nil
  show ?case by simp
next
  case (Cons x xs)
  show ?case
  proof (cases "f x = v")
    case True
    with Cons.prems have "v \<notin> f ` set xs" by simp
    then have "\<forall>y\<in>set xs. f y \<noteq> v" by blast
    then have "filter (\<lambda>x. f x = v) xs = []" by (simp add: filter_empty_conv)
    with True show ?thesis by simp
  next
    case False
    with Cons show ?thesis by simp
  qed
qed

lemma select_opt_fields:
  "map (opt_value \<circ> select_opt v) xs = map opt_value xs"
  "filter checked (map (select_opt v) xs) = map (select_opt v) (filter (\<lambda>x. opt_value x = v) xs)"
  by (induction xs) (simp_all add: select_opt_def)

lemma update_badge_optionList: "optionList (update_badge q) = optionList q"
  by (simp add: update_badge_def)

lemma answer_one_choice:
  assumes "distinct_values q"
  shows "distinct_values (answer v q) \<and> checked_count (answer v q) \<le> 1"
  using assms filter_value_le_1 [of opt_value "optionList q" v]
  by (simp add: distinct_values_def checked_count_def answer_def update_badge_optionList
      select_opt_fields)

lemma list_all_update:
  "list_all P xs \<Longrightarrow> P y \<Longrightarrow> list_all P (xs[i := y])"
  using set_update_subset_insert [of xs i y] by (auto simp: list_all_iff)

lemma step_one_choice:
  assumes "list_all one_choice (questions s)"
  shows "list_all one_choice (questions (step ev s))"
proof (cases "currentQuestion s")
  case None
  show ?thesis
  proof (cases ev)
    case (JumpTo str)
    with assms show ?thesis
      by (simp add: step_def dispatch_def handleBadgeClick_def split: option.split)
  next
    case Submit
    with assms show ?thesis by (simp add: step_def dispatch_def handleSubmit_fields)
  next
    case Tick
    with assms show ?thesis by (simp add: step_def dispatch_def tick_fields)
  qed (use None assms step_throw in simp_all)
next
  case (Some q)
  then have "q \<in> set (questions s)"
    by (auto simp: currentQuestion_Some nat_less_iff)
  with assms have q: "one_choice q" by (simp add: list_all_iff)
  show ?thesis
  proof (cases ev)
    case (SelectOption v)
    from q have "one_choice (answer v q)"
      using answer_one_choice [of q v] by (simp add: one_choice_def)
    with handleOptionChange_Inr [OF Some, of v] assms SelectOption show ?thesis
      by (auto simp: step_def dispatch_def list_all_update)
  next
    case MarkForReview
    from q have "one_choice (q\<lparr>reviewed := True, badgeClass := ''badge review''\<rparr>)"
      by (simp add: one_choice_def distinct_values_def checked_count_def)
    with assms handleReview_Inr [OF Some] MarkForReview show ?thesis
      by (simp add: step_def dispatch_def list_all_update)
  next
    case Next
    from handleNext_Inr [OF Some] assms Next show ?thesis
      by (auto simp: step_def dispatch_def)
  next
    case Previous
    from handlePrevious_Inr [OF Some] assms Previous show ?thesis
      by (auto simp: step_def dispatch_def)
  next
    case (JumpTo str)
    with assms show ?thesis
      by (simp add: step_def dispatch_def handleBadgeClick_def split: option.split)
  next
    case Submit
    with assms show ?thesis by (simp add: step_def dispatch_def handleSubmit_fields)
  next
    case Tick
    with assms show ?thesis by (simp add: step_def dispatch_def tick_fields)
  qed
qed

lemma run_one_choice:
  "list_all one_choice (questions s) \<Longrightarrow> list_all one_choice (questions (run s evs))"
  by (induction evs arbitrary: s) (simp_all add: step_one_choice)

lemma make_question_one_choice:
  "distinct (dto_options d) \<Longrightarrow> one_choice (make_question (i, d))"
proof -
  have v: "map (opt_value \<circ> make_option) (enumerate k xs) = xs" for k xs
    by (induction xs arbitrary: k) (simp_all add: make_option_def)
  have c: "filter checked (map make_option (enumerate k xs)) = []" for k xs
    by (induction xs arbitrary: k) (simp_all add: make_option_def)
  assume "distinct (dto_options d)"
  then show ?thesis
    by (simp add: one_choice_def distinct_values_def checked_count_def make_question_fields v c)
qed

text \<open>
  Claim C4, amended. When the option texts of each loaded question are pairwise distinct,
  every question has at most one selected option in every state that the loaded session
  reaches by selecting, marking for review, navigating, jumping, submitting and timer
  ticks.
\<close>

theorem at_most_one_selected:
  assumes "\<forall>d\<in>set res. distinct (dto_options d)"
  shows "\<forall>q\<in>set (questions (run (loaded a e res) evs)). checked_count q \<le> 1"
proof -
  have "list_all one_choice (map make_question (enumerate 0 res))"
    using assms
    by (auto simp: list_all_iff in_set_enumerate_eq make_question_one_choice)
  then have "list_all one_choice (questions (run (loaded a e res) evs))"
    by (intro run_one_choice) (simp add: loaded_fields)
  then show ?thesis by (simp add: list_all_iff one_choice_def)
qed

theorem at_most_one_selected_witness:
  "list_all (\<lambda>d. distinct (dto_options d)) two_questions
   \<and> list_all (\<lambda>q. checked_count q \<le> 1)
       (questions (run (loaded (Some ''attendee'') (Some ''exam'') two_questions)
          [SelectOption ''x'', SelectOption ''y'', MarkForReview, Next, SelectOption ''p'']))"
proof -
  have h: "\<forall>d\<in>set two_questions. distinct (dto_options d)"
    by (simp add: two_questions_def)
  have a: "list_all (\<lambda>d. distinct (dto_options d)) two_questions"
    unfolding list_all_iff by (rule h)
  have b: "list_all (\<lambda>q. checked_count q \<le> 1)
       (questions (run (loaded (Some ''attendee'') (Some ''exam'') two_questions)
          [SelectOption ''x'', SelectOption ''y'', MarkForReview, Next, SelectOption ''p'']))"
    unfolding list_all_iff by (rule at_most_one_selected [OF h])
  from a b show ?thesis by (rule conjI)
qed

theorem twin_options_counterexample:
  "checked_count (questions (run (loaded (Some ''attendee'') (Some ''exam'') twin_options)
      [SelectOption ''x'']) ! 0) = 2
   \<and> \<not> checked_count (questions (run (loaded (Some ''attendee'') (Some ''exam'') twin_options)
      [SelectOption ''x'']) ! 0) \<le> 1"
  by code_simp

subsection \<open>The pointer stays inside the sequence\<close>

lemma step_pointer:
  assumes "0 \<le> currentQuestionIndex s" "currentQuestionIndex s < int (length (questions s))"
    and "navigation_in_range (length (questions s)) ev"
    and "length (questions s) \<le> 2 ^ 53"
  shows "0 \<le> currentQuestionIndex (step ev s)
       \<and> currentQuestionIndex (step ev s) < int (length (questions (step ev s)))
       \<and> length (questions (step ev s)) = length (questions s)"
proof -
  from assms(1,2) obtain q where q: "currentQuestion s = Some q"
    by (auto simp: currentQuestion_def)
  show ?thesis
  proof (cases ev)
    case Next
    from handleNext_Inr [OF q] assms(1,2) Next show ?thesis
      by (auto simp: step_def dispatch_def)
  next
    case Previous
    from handlePrevious_Inr [OF q] assms(1,2) Previous show ?thesis
      by (auto simp: step_def dispatch_def)
  next
    case (JumpTo str)
    show ?thesis
    proof (cases "parseInt10 str")
      case None
      with JumpTo assms(1,2) show ?thesis
        by (simp add: step_def dispatch_def handleBadgeClick_def)
    next
      case (Some k)
      with JumpTo assms(3) have k: "1 \<le> k" "k \<le> int (length (questions s))"
        by (simp_all add: navigation_in_range_def)
      with assms(4) have "\<bar>k - 1\<bar> \<le> 2 ^ 53" by simp
      then have "to_double (k - 1) = k - 1" by (rule to_double_exact)
      with JumpTo Some k show ?thesis
        by (simp add: step_def dispatch_def handleBadgeClick_def)
    qed
  qed (use assms(3) in \<open>simp_all add: navigation_in_range_def\<close>)
qed

lemma run_pointer:
  assumes "0 \<le> currentQuestionIndex s" "currentQuestionIndex s < int (length (questions s))"
    and "\<forall>ev\<in>set evs. navigation_in_range (length (questions s)) ev"
    and "length (questions s) \<le> 2 ^ 53"
  shows "0 \<le> currentQuestionIndex (run s evs)
       \<and> currentQuestionIndex (run s evs) < int (length (questions (run s evs)))"
  using assms
proof (induction evs arbitrary: s)
  case Nil
  then show ?case by simp
next
  case (Cons ev evs)
  from Cons.prems have "navigation_in_range (length (questions s)) ev" by simp
  from step_pointer [OF Cons.prems(1,2) this Cons.prems(4)] Cons.prems(3,4)
    Cons.IH [of "step ev s"]
  show ?case by simp
qed

text \<open>
  Claim C5, amended. After a non-empty question sequence has been loaded, the pointer
  stays between 0 and the length of the sequence under every sequence of next, previous
  and jumps whose input does not parse or parses to a display number between 1 and the
  length. The sequence is an array: it has fewer than \<open>2 ^ 32\<close> questions, and at most
  \<open>2 ^ 53\<close> are assumed, so that every display number less one is a double.
\<close>

theorem pointer_in_range:
  assumes "res \<noteq> []" "length res \<le> 2 ^ 53"
    and "\<forall>ev\<in>set evs. navigation_in_range (length res) ev"
  shows "0 \<le> currentQuestionIndex (run (loaded a e res) evs)
       \<and> currentQuestionIndex (run (loaded a e res) evs) <
           int (length (questions (run (loaded a e res) evs)))"
  using assms by (intro run_pointer) (simp_all add: loaded_fields)

theorem pointer_in_range_witness:
  "two_questions \<noteq> [] \<and> length two_questions \<le> 2 ^ 53
   \<and> list_all (navigation_in_range (length two_questions))
       [Next, JumpTo ''1'', Previous, JumpTo ''abc'', JumpTo ''2'', Next]
   \<and> 0 \<le> currentQuestionIndex (run (loaded None (Some ''exam'') two_questions)
       [Next, JumpTo ''1'', Previous, JumpTo ''abc'', JumpTo ''2'', Next])
   \<and> currentQuestionIndex (run (loaded None (Some ''exam'') two_questions)
       [Next, JumpTo ''1'', Previous, JumpTo ''abc'', JumpTo ''2'', Next]) <
       int (length (questions (run (loaded None (Some ''exam'') two_questions)
         [Next, JumpTo ''1'', Previous, JumpTo ''abc'', JumpTo ''2'', Next])))"
proof -
  let ?evs = "[Next, JumpTo ''1'', Previous, JumpTo ''abc'', JumpTo ''2'', Next]"
  have n: "two_questions \<noteq> []" by (simp add: two_questions_def)
  have h: "\<forall>ev\<in>set ?evs. navigation_in_range (length two_questions) ev"
    by code_simp
  then have h': "list_all (navigation_in_range (length two_questions)) ?evs"
    by (simp add: list_all_iff)
  have m: "length two_questions \<le> 2 ^ 53" by (simp add: two_questions_def)
  from pointer_in_range [OF n m h] n m h' show ?thesis by blast
qed

theorem jump_out_of_range_counterexample:
  "currentQuestionIndex (run fresh_session [JumpTo ''5'']) = 4
   \<and> length (questions (run fresh_session [JumpTo ''5''])) = 2
   \<and> \<not> currentQuestionIndex (run fresh_session [JumpTo ''5'']) <
         int (length (questions (run fresh_session [JumpTo ''5''])))"
  by code_simp

end
